theory Spec2Isabelle
  imports Main
begin

section \<open>Frames\<close>

text \<open>
  A frame is the numpy raster of \<^verbatim>\<open>camera_manager.py\<close>: a list of rows, each row a
  list of pixels. \<^verbatim>\<open>frame.shape[:2]\<close> is (height, width). A frame option is the
  Python value that may be \<^verbatim>\<open>None\<close>.
\<close>

type_synonym 'p frame = "'p list list"

definition frame_height :: "'p frame \<Rightarrow> int" where
  "frame_height f = int (length f)"

definition frame_width :: "'p frame \<Rightarrow> int" where
  "frame_width f = (case f of [] \<Rightarrow> 0 | r # _ \<Rightarrow> int (length r))"

text \<open>A raster as a camera delivers it: at least one row, at least one column, all rows
  of the same length.\<close>

definition raster :: "'p frame \<Rightarrow> bool" where
  "raster f = (f \<noteq> [] \<and> hd f \<noteq> [] \<and> list_all (\<lambda>r. length r = length (hd f)) f)"

subsection \<open>The OpenCV operations used by the pipeline\<close>

text \<open>Column \<open>j\<close> of a frame, top to bottom.\<close>

definition column :: "'p frame \<Rightarrow> nat \<Rightarrow> 'p list" where
  "column f j = map (\<lambda>r. r ! j) f"

definition columns :: "'p frame \<Rightarrow> 'p frame" where
  "columns f = map (column f) [0 ..< nat (frame_width f)]"

text \<open>\<^verbatim>\<open>cv2.rotate(f, cv2.ROTATE_90_CLOCKWISE)\<close>: row \<open>i\<close> of the result is column \<open>i\<close>
  of the input read bottom to top.\<close>

definition rotate_90_clockwise :: "'p frame \<Rightarrow> 'p frame" where
  "rotate_90_clockwise f = map rev (columns f)"

text \<open>\<^verbatim>\<open>cv2.rotate(f, cv2.ROTATE_180)\<close>.\<close>

definition rotate_180 :: "'p frame \<Rightarrow> 'p frame" where
  "rotate_180 f = rev (map rev f)"

text \<open>\<^verbatim>\<open>cv2.rotate(f, cv2.ROTATE_90_COUNTERCLOCKWISE)\<close>: row \<open>i\<close> of the result is the
  column \<open>width - 1 - i\<close> of the input read top to bottom.\<close>

definition rotate_90_counterclockwise :: "'p frame \<Rightarrow> 'p frame" where
  "rotate_90_counterclockwise f = rev (columns f)"

text \<open>\<^verbatim>\<open>cv2.flip(f, code)\<close>: code 1 mirrors left-right, code 0 mirrors top-bottom,
  code -1 does both.\<close>

definition cv2_flip :: "'p frame \<Rightarrow> int \<Rightarrow> 'p frame" where
  "cv2_flip f code =
     (if code > 0 then map rev f
      else if code = 0 then rev f
      else rev (map rev f))"

text \<open>Python's \<^verbatim>\<open>xs[i:j]\<close> with both bounds given: a negative bound counts from the
  end, and every bound is cut to the length.\<close>

definition slice_bound :: "int \<Rightarrow> int \<Rightarrow> int" where
  "slice_bound n i = (if i < 0 then max 0 (n + i) else min i n)"

definition py_slice :: "'a list \<Rightarrow> int \<Rightarrow> int \<Rightarrow> 'a list" where
  "py_slice xs i j =
     (let n = int (length xs); a = slice_bound n i; b = slice_bound n j
      in take (nat (b - a)) (drop (nat a) xs))"

text \<open>\<^verbatim>\<open>processed[y:y+h, x:x+w]\<close>.\<close>

definition crop_slice :: "'p frame \<Rightarrow> int \<Rightarrow> int \<Rightarrow> int \<Rightarrow> int \<Rightarrow> 'p frame" where
  "crop_slice f x y w h = map (\<lambda>r. py_slice r x (x + w)) (py_slice f y (y + h))"

section \<open>ImageProcessor\<close>

record image_processor =
  rotation_angle :: int
  flip_horizontal :: bool
  flip_vertical :: bool
  crop_region :: "(int \<times> int \<times> int \<times> int) option"

definition new_image_processor :: image_processor where
  "new_image_processor =
     \<lparr> rotation_angle = 0, flip_horizontal = False, flip_vertical = False,
       crop_region = None \<rparr>"

definition reset :: "image_processor \<Rightarrow> image_processor" where
  "reset s = s \<lparr> rotation_angle := 0, flip_horizontal := False, flip_vertical := False,
                 crop_region := None \<rparr>"

text \<open>Python's \<^verbatim>\<open>%\<close> with a positive divisor is HOL's \<open>mod\<close> on \<open>int\<close>.\<close>

definition set_rotation :: "image_processor \<Rightarrow> int \<Rightarrow> image_processor" where
  "set_rotation s angle = s \<lparr> rotation_angle := angle mod 360 \<rparr>"

definition rotate_clockwise :: "image_processor \<Rightarrow> image_processor" where
  "rotate_clockwise s = s \<lparr> rotation_angle := (rotation_angle s + 90) mod 360 \<rparr>"

definition rotate_counterclockwise :: "image_processor \<Rightarrow> image_processor" where
  "rotate_counterclockwise s = s \<lparr> rotation_angle := (rotation_angle s - 90) mod 360 \<rparr>"

definition toggle_flip_horizontal :: "image_processor \<Rightarrow> image_processor" where
  "toggle_flip_horizontal s = s \<lparr> flip_horizontal := \<not> flip_horizontal s \<rparr>"

definition toggle_flip_vertical :: "image_processor \<Rightarrow> image_processor" where
  "toggle_flip_vertical s = s \<lparr> flip_vertical := \<not> flip_vertical s \<rparr>"

definition set_crop_region :: "image_processor \<Rightarrow> int \<Rightarrow> int \<Rightarrow> int \<Rightarrow> int \<Rightarrow> image_processor" where
  "set_crop_region s x y w h = s \<lparr> crop_region := Some (x, y, w, h) \<rparr>"

definition clear_crop :: "image_processor \<Rightarrow> image_processor" where
  "clear_crop s = s \<lparr> crop_region := None \<rparr>"

subsection \<open>process_frame, stage by stage\<close>

text \<open>The rotation stage: the \<^verbatim>\<open>if/elif/elif\<close> chain on \<^verbatim>\<open>self.rotation_angle\<close>,
  with no \<^verbatim>\<open>else\<close>.\<close>

definition rotation_stage :: "image_processor \<Rightarrow> 'p frame \<Rightarrow> 'p frame" where
  "rotation_stage s processed =
     (if rotation_angle s = 90 then rotate_90_clockwise processed
      else if rotation_angle s = 180 then rotate_180 processed
      else if rotation_angle s = 270 then rotate_90_counterclockwise processed
      else processed)"

definition flip_stage :: "image_processor \<Rightarrow> 'p frame \<Rightarrow> 'p frame" where
  "flip_stage s processed =
     (if flip_horizontal s \<and> flip_vertical s then cv2_flip processed (- 1)
      else if flip_horizontal s then cv2_flip processed 1
      else if flip_vertical s then cv2_flip processed 0
      else processed)"

text \<open>The four assignments that bring the requested rectangle within the bounds of the
  frame the crop is applied to.\<close>

definition clamp_crop :: "int \<times> int \<times> int \<times> int \<Rightarrow> int \<Rightarrow> int \<Rightarrow> int \<times> int \<times> int \<times> int" where
  "clamp_crop c width height =
     (case c of (x, y, w, h) \<Rightarrow>
        let x' = max 0 (min x (width - 1));
            y' = max 0 (min y (height - 1));
            w' = max 1 (min w (width - x'));
            h' = max 1 (min h (height - y'))
        in (x', y', w', h'))"

text \<open>The crop stage. A stored tuple of four numbers is always true in Python, so the
  test \<^verbatim>\<open>if self.crop_region\<close> is the test for \<^verbatim>\<open>None\<close>.\<close>

definition crop_stage :: "image_processor \<Rightarrow> 'p frame \<Rightarrow> 'p frame" where
  "crop_stage s processed =
     (case crop_region s of
        None \<Rightarrow> processed
      | Some c \<Rightarrow>
          (case clamp_crop c (frame_width processed) (frame_height processed) of
             (x, y, w, h) \<Rightarrow> crop_slice processed x y w h))"

definition process_frame :: "image_processor \<Rightarrow> 'p frame option \<Rightarrow> 'p frame option" where
  "process_frame s frame =
     (case frame of
        None \<Rightarrow> None
      | Some f \<Rightarrow> Some (crop_stage s (flip_stage s (rotation_stage s f))))"

section \<open>The device layer\<close>


datatype 'p read_result = ReadRaises | ReadReturns bool "'p frame option"


text \<open>What the program has done to the devices and threads so far.\<close>

record world =
  captures :: nat
  opened :: "nat list"
  released :: "nat list"
  threads :: nat


text \<open>\<^verbatim>\<open>capture.release()\<close> on the capture object \<open>h\<close>.\<close>

definition release :: "nat \<Rightarrow> world \<Rightarrow> world" where
  "release h w = w \<lparr> opened := removeAll h (opened w), released := released w @ [h] \<rparr>"

section \<open>CameraFeed\<close>

text \<open>A frame callback is known by a number; its behaviour when called is given
  separately. \<^verbatim>\<open>capture_thread\<close> is the number of the thread object, if any.\<close>

record 'p camera_feed =
  camera_index :: int
  name :: string
  camera :: "nat option"
  is_active :: bool
  is_connected :: bool
  processor :: image_processor
  capture_thread :: "nat option"
  stop_capture :: bool
  current_frame :: "'p frame option"
  processed_frame :: "'p frame option"
  frame_callbacks :: "nat list"

definition new_camera_feed :: "int \<Rightarrow> string \<Rightarrow> 'p camera_feed" where
  "new_camera_feed idx nm =
     \<lparr> camera_index = idx, name = nm, camera = None, is_active = False,
       is_connected = False, processor = new_image_processor, capture_thread = None,
       stop_capture = False, current_frame = None, processed_frame = None,
       frame_callbacks = [] \<rparr>"

definition add_frame_callback :: "'p camera_feed \<Rightarrow> nat \<Rightarrow> 'p camera_feed" where
  "add_frame_callback f cb = f \<lparr> frame_callbacks := frame_callbacks f @ [cb] \<rparr>"

definition remove_frame_callback :: "'p camera_feed \<Rightarrow> nat \<Rightarrow> 'p camera_feed" where
  "remove_frame_callback f cb =
     (if cb \<in> set (frame_callbacks f)
      then f \<lparr> frame_callbacks := remove1 cb (frame_callbacks f) \<rparr>
      else f)"


text \<open>\<^verbatim>\<open>stop_feed\<close>: the wait for the thread changes no field.\<close>

definition stop_feed :: "'p camera_feed \<Rightarrow> 'p camera_feed" where
  "stop_feed f = f \<lparr> stop_capture := True, is_active := False \<rparr>"

definition disconnect :: "world \<Rightarrow> 'p camera_feed \<Rightarrow> world \<times> 'p camera_feed" where
  "disconnect w f =
     (let f1 = stop_feed f
      in case camera f1 of
           Some h \<Rightarrow> (release h w, f1 \<lparr> camera := None, is_connected := False \<rparr>)
         | None \<Rightarrow> (w, f1 \<lparr> is_connected := False \<rparr>))"



subsection \<open>The capture loop\<close>

text \<open>
  A callback either returns or raises an \<^verbatim>\<open>Exception\<close>; the loop writes down each call
  and each error message it prints.
\<close>

datatype callback_outcome = Returned | Raised

datatype 'p loop_event = Called nat "'p frame option" | PrintedError nat

text \<open>\<^verbatim>\<open>for callback in self.frame_callbacks: try: callback(self.processed_frame)
  except Exception as e: print(...)\<close>.\<close>

fun call_callbacks ::
  "(nat \<Rightarrow> 'p frame option \<Rightarrow> callback_outcome) \<Rightarrow> nat list \<Rightarrow> 'p frame option \<Rightarrow> 'p loop_event list"
where
  "call_callbacks behaviour [] fr = []"
| "call_callbacks behaviour (cb # cbs) fr =
     (case behaviour cb fr of
        Returned \<Rightarrow> Called cb fr # call_callbacks behaviour cbs fr
      | Raised \<Rightarrow> Called cb fr # PrintedError cb # call_callbacks behaviour cbs fr)"

text \<open>
  What one pass of the \<^verbatim>\<open>while\<close> loop meets: whether another thread has set
  \<^verbatim>\<open>stop_capture\<close> by then, whether the device still reports open, and what
  \<^verbatim>\<open>read()\<close> gives. The loop runs as long as passes are given; it ends by its
  condition (\<open>Exited\<close>) or by an exception nobody catches (\<open>Crashed\<close>: \<^verbatim>\<open>read\<close>
  raising, or \<^verbatim>\<open>frame.copy()\<close> on \<^verbatim>\<open>None\<close>).
\<close>

record 'p cycle =
  stop_signal :: bool
  device_opened :: bool
  cycle_read :: "'p read_result"

datatype loop_state = Running | Exited | Crashed

text \<open>The body of the critical section \<^verbatim>\<open>with self.frame_lock\<close> of the loop.\<close>

definition publish :: "'p camera_feed \<Rightarrow> 'p frame \<Rightarrow> 'p camera_feed" where
  "publish f frame =
     f \<lparr> current_frame := Some frame,
         processed_frame := process_frame (processor f) (Some frame) \<rparr>"

fun capture_loop ::
  "(nat \<Rightarrow> 'p frame option \<Rightarrow> callback_outcome) \<Rightarrow> 'p cycle list \<Rightarrow> 'p camera_feed \<Rightarrow>
     'p loop_event list \<Rightarrow> loop_state \<times> 'p camera_feed \<times> 'p loop_event list"
where
  "capture_loop behaviour [] f log = (Running, f, log)"
| "capture_loop behaviour (c # cs) f log =
     (let f1 = (if stop_signal c then f \<lparr> stop_capture := True \<rparr> else f)
      in if stop_capture f1 \<or> camera f1 = None \<or> \<not> device_opened c then (Exited, f1, log)
         else (case cycle_read c of
                 ReadRaises \<Rightarrow> (Crashed, f1, log)
               | ReadReturns ret frame \<Rightarrow>
                   if ret
                   then (case frame of
                           None \<Rightarrow> (Crashed, f1, log)
                         | Some fr \<Rightarrow>
                             (let f2 = publish f1 fr
                              in capture_loop behaviour cs f2
                                   (log @ call_callbacks behaviour (frame_callbacks f2)
                                            (processed_frame f2))))
                   else capture_loop behaviour cs f1 log))"

text \<open>The frame of a pass whose read succeeds, and the passes in which nothing stops
  the loop. The calls of a log, without the printed errors.\<close>

definition cycle_frame :: "'p cycle \<Rightarrow> 'p frame option" where
  "cycle_frame c =
     (case cycle_read c of
        ReadRaises \<Rightarrow> None
      | ReadReturns ret frame \<Rightarrow> if ret then frame else None)"

definition good_cycle :: "'p cycle \<Rightarrow> bool" where
  "good_cycle c = (\<not> stop_signal c \<and> device_opened c \<and> cycle_frame c \<noteq> None)"

fun calls :: "'p loop_event list \<Rightarrow> (nat \<times> 'p frame option) list" where
  "calls [] = []"
| "calls (Called cb fr # es) = (cb, fr) # calls es"
| "calls (PrintedError cb # es) = calls es"


subsection \<open>The loop and a consumer, interleaved\<close>




section \<open>CameraManager\<close>

text \<open>Python's \<^verbatim>\<open>str\<close> of an integer, for the f-strings.\<close>

fun str_nat :: "nat \<Rightarrow> string" where
  "str_nat n =
     (if n < 10 then [''0123456789'' ! n]
      else str_nat (n div 10) @ [''0123456789'' ! (n mod 10)])"

definition str_int :: "int \<Rightarrow> string" where
  "str_int i = (if i < 0 then ''-'' @ str_nat (nat (- i)) else str_nat (nat i))"

text \<open>
  The two questions the manager asks outside the program: \<^verbatim>\<open>system_profiler\<close> answers
  with the list of cameras, each with its \<^verbatim>\<open>_name\<close> if it has one, or gives nothing
  (a return code other than 0, or an exception); \<^verbatim>\<open>detect_iphone_camera\<close> answers
  with an index or \<^verbatim>\<open>None\<close>.
\<close>

record registry_env =
  system_profiler :: "string option list option"
  detect_iphone_camera :: "int option"

record camera_manager =
  available_cameras :: "int list"
  camera_feeds :: "string \<rightharpoonup> nat"

text \<open>The feed objects live in a store; the manager's dictionary holds references.\<close>

record 'p system =
  sys_world :: world
  sys_feeds :: "nat \<rightharpoonup> 'p camera_feed"
  sys_next :: nat
  sys_manager :: camera_manager

text \<open>The first loop of \<^verbatim>\<open>get_camera_names\<close>: entry \<open>i\<close> of the answer names the
  \<open>i\<close>-th available camera, as long as there is one.\<close>

fun name_cameras :: "int list \<Rightarrow> string option list \<Rightarrow> (int \<rightharpoonup> string) \<Rightarrow> (int \<rightharpoonup> string)" where
  "name_cameras (idx # idxs) (c # cs) names =
     name_cameras idxs cs
       (names(idx \<mapsto> (case c of Some n \<Rightarrow> n | None \<Rightarrow> ''Camera '' @ str_int idx)))"
| "name_cameras idxs cs names = names"

text \<open>The second loop: \<^verbatim>\<open>Camera {idx}\<close> for every index without a name.\<close>

fun fill_missing :: "int list \<Rightarrow> (int \<rightharpoonup> string) \<Rightarrow> (int \<rightharpoonup> string)" where
  "fill_missing [] names = names"
| "fill_missing (idx # idxs) names =
     fill_missing idxs
       (if idx \<notin> dom names then names(idx \<mapsto> ''Camera '' @ str_int idx) else names)"

definition get_camera_names :: "registry_env \<Rightarrow> camera_manager \<Rightarrow> (int \<rightharpoonup> string)" where
  "get_camera_names env m =
     fill_missing (available_cameras m)
       (case system_profiler env of
          None \<Rightarrow> Map.empty
        | Some cameras \<Rightarrow> name_cameras (available_cameras m) cameras Map.empty)"

text \<open>\<^verbatim>\<open>camera_names.get(idx, f"Camera {idx}")\<close>.\<close>

definition name_or_default :: "(int \<rightharpoonup> string) \<Rightarrow> int \<Rightarrow> string" where
  "name_or_default names idx =
     (case names idx of Some n \<Rightarrow> n | None \<Rightarrow> ''Camera '' @ str_int idx)"

definition create_camera_feed ::
  "registry_env \<Rightarrow> int \<Rightarrow> string \<Rightarrow> 'p system \<Rightarrow> nat \<times> 'p system"
where
  "create_camera_feed env idx feed_name st =
     (let camera_names = get_camera_names env (sys_manager st);
          camera_name = name_or_default camera_names idx;
          r = sys_next st
      in (r, st \<lparr> sys_feeds := (sys_feeds st)(r \<mapsto> new_camera_feed idx camera_name),
                  sys_next := Suc r,
                  sys_manager := (sys_manager st)
                    \<lparr> camera_feeds := (camera_feeds (sys_manager st))(feed_name \<mapsto> r) \<rparr> \<rparr>))"

definition get_feed :: "'p system \<Rightarrow> string \<Rightarrow> nat option" where
  "get_feed st feed_name = camera_feeds (sys_manager st) feed_name"

definition remove_feed :: "string \<Rightarrow> 'p system \<Rightarrow> 'p system" where
  "remove_feed feed_name st =
     (case camera_feeds (sys_manager st) feed_name of
        None \<Rightarrow> st
      | Some r \<Rightarrow>
          (case sys_feeds st r of
             None \<Rightarrow> st
           | Some f \<Rightarrow>
               (case disconnect (sys_world st) f of
                  (w, f') \<Rightarrow>
                    st \<lparr> sys_world := w,
                         sys_feeds := (sys_feeds st)(r \<mapsto> f'),
                         sys_manager := (sys_manager st)
                           \<lparr> camera_feeds := (camera_feeds (sys_manager st))(feed_name := None) \<rparr> \<rparr>)))"

text \<open>The last loop of \<^verbatim>\<open>get_available_camera_options\<close>: the indices 2, 3, 4, 5 are
  offered when no option has them yet.\<close>

definition try_camera_option :: "int \<Rightarrow> int \<times> string" where
  "try_camera_option idx = (idx, ''Try Camera '' @ str_int idx @ '' (Possible iPhone)'')"

fun add_try_cameras :: "int list \<Rightarrow> (int \<times> string) list \<Rightarrow> (int \<times> string) list" where
  "add_try_cameras [] options = options"
| "add_try_cameras (idx # idxs) options =
     add_try_cameras idxs
       (if idx \<notin> set (map fst options) then options @ [try_camera_option idx]
        else options)"

definition detected_options :: "registry_env \<Rightarrow> camera_manager \<Rightarrow> (int \<times> string) list" where
  "detected_options env m =
     map (\<lambda>idx. (idx, name_or_default (get_camera_names env m) idx)) (available_cameras m)"

definition iphone_option :: "registry_env \<Rightarrow> camera_manager \<Rightarrow> (int \<times> string) list" where
  "iphone_option env m =
     (case detect_iphone_camera env of
        None \<Rightarrow> []
      | Some iphone_idx \<Rightarrow>
          if iphone_idx \<notin> set (available_cameras m)
          then [(iphone_idx, ''iPhone Camera (Index '' @ str_int iphone_idx @ '')'')]
          else [])"

definition get_available_camera_options :: "registry_env \<Rightarrow> camera_manager \<Rightarrow> (int \<times> string) list" where
  "get_available_camera_options env m =
     add_try_cameras [2, 3, 4, 5] (detected_options env m @ iphone_option env m)"

section \<open>Inputs for the examples\<close>





definition raising_first :: "nat \<Rightarrow> nat frame option \<Rightarrow> callback_outcome" where
  "raising_first cb fr = (if cb = 0 then Raised else Returned)"

definition ten_cycles :: "nat cycle list" where
  "ten_cycles =
     map (\<lambda>k. \<lparr> stop_signal = False, device_opened = True,
                 cycle_read = ReadReturns True (Some [[k]]) \<rparr>)
       [1, 2, 3, 4, 5, 6, 7, 8, 9, 10]"

definition feed_two_callbacks :: "nat camera_feed" where
  "feed_two_callbacks =
     add_frame_callback
       (add_frame_callback
          ((new_camera_feed 0 ''Camera 0'') \<lparr> camera := Some 0, is_connected := True \<rparr>) 0) 1"

definition env_nothing :: registry_env where
  "env_nothing = \<lparr> system_profiler = None, detect_iphone_camera = None \<rparr>"

definition manager_one_camera :: camera_manager where
  "manager_one_camera = \<lparr> available_cameras = [0], camera_feeds = Map.empty \<rparr>"

definition feed_running :: "nat camera_feed" where
  "feed_running =
     (new_camera_feed 0 ''Camera 0'')
       \<lparr> camera := Some 0, is_connected := True, is_active := True,
         capture_thread := Some 0 \<rparr>"

definition system_one_feed :: "nat system" where
  "system_one_feed =
     \<lparr> sys_world = \<lparr> captures = 1, opened = [0], released = [], threads = 1 \<rparr>,
       sys_feeds = [0 \<mapsto> feed_running],
       sys_next = 1,
       sys_manager = \<lparr> available_cameras = [0], camera_feeds = [''rgb'' \<mapsto> 0] \<rparr> \<rparr>"

definition env_iphone_7 :: registry_env where
  "env_iphone_7 =
     \<lparr> system_profiler = Some [Some ''FaceTime HD Camera'', None],
       detect_iphone_camera = Some 7 \<rparr>"

definition manager_three_cameras :: camera_manager where
  "manager_three_cameras = \<lparr> available_cameras = [0, 1, 2], camera_feeds = Map.empty \<rparr>"

section \<open>Dimensions of rotated and flipped rasters\<close>

lemma raster_rows: "raster f \<Longrightarrow> r \<in> set f \<Longrightarrow> length r = nat (frame_width f)"
  by (cases f) (auto simp: raster_def frame_width_def list_all_iff)

lemma raster_width_pos: "raster f \<Longrightarrow> 0 < frame_width f"
  by (cases f) (auto simp: raster_def frame_width_def)

lemma raster_height_pos: "raster f \<Longrightarrow> 0 < frame_height f"
  by (cases f) (auto simp: raster_def frame_height_def)

lemma length_columns: "length (columns f) = nat (frame_width f)"
  by (simp add: columns_def)

lemma frame_width_columns:
  assumes "raster f"
  shows "frame_width (columns f) = frame_height f"
proof -
  from assms have "0 < nat (frame_width f)"
    using raster_width_pos by fastforce
  then have "[0 ..< nat (frame_width f)] = 0 # [Suc 0 ..< nat (frame_width f)]"
    by (simp add: upt_conv_Cons)
  then show ?thesis
    by (simp add: columns_def frame_width_def frame_height_def column_def)
qed

lemma frame_height_columns: "frame_height (columns f) = int (nat (frame_width f))"
  by (simp add: frame_height_def length_columns)

lemma frame_width_map_rev: "frame_width (map rev f) = frame_width f"
  by (cases f) (simp_all add: frame_width_def)

lemma frame_height_map_rev: "frame_height (map rev f) = frame_height f"
  by (simp add: frame_height_def)

lemma frame_height_rev: "frame_height (rev f) = frame_height f"
  by (simp add: frame_height_def)

lemma frame_width_rev: "raster f \<Longrightarrow> frame_width (rev f) = frame_width f"
proof -
  assume r: "raster f"
  then have ne: "rev f \<noteq> []" by (simp add: raster_def)
  then obtain a as where as: "rev f = a # as" by (cases "rev f") auto
  then have "a \<in> set f" by (metis list.set_intros(1) set_rev)
  with r have "length a = nat (frame_width f)" by (rule raster_rows)
  with as r show ?thesis
    using raster_width_pos [OF r] by (simp add: frame_width_def)
qed

lemma raster_columns: "raster f \<Longrightarrow> raster (columns f)"
proof -
  assume r: "raster f"
  have w: "0 < nat (frame_width f)" using raster_width_pos [OF r] by simp
  then have ne: "columns f \<noteq> []" by (simp add: columns_def)
  have len: "\<forall>c \<in> set (columns f). length c = length f"
    by (simp add: columns_def column_def)
  from ne have "hd (columns f) \<in> set (columns f)" by simp
  with len have hd: "length (hd (columns f)) = length f" by blast
  from r have "f \<noteq> []" by (simp add: raster_def)
  with hd have "hd (columns f) \<noteq> []" by auto
  with ne len hd show ?thesis by (simp add: raster_def list_all_iff)
qed

lemma raster_map_rev: "raster f \<Longrightarrow> raster (map rev f)"
  by (cases f) (auto simp: raster_def list_all_iff)

lemma raster_rev: "raster f \<Longrightarrow> raster (rev f)"
proof -
  assume r: "raster f"
  then have ne: "rev f \<noteq> []" by (simp add: raster_def)
  then have "hd (rev f) \<in> set f" by (metis hd_in_set set_rev)
  with r have h: "length (hd (rev f)) = nat (frame_width f)" by (rule raster_rows)
  have "\<forall>x \<in> set f. length x = nat (frame_width f)" using r raster_rows by blast
  with ne h raster_width_pos [OF r] show ?thesis
    by (auto simp: raster_def list_all_iff)
qed

lemma rotation_stage_raster:
  assumes "raster f"
  shows "raster (rotation_stage s f)"
  using assms
  by (simp add: rotation_stage_def rotate_90_clockwise_def rotate_180_def
      rotate_90_counterclockwise_def raster_columns raster_map_rev raster_rev)

lemma rotation_stage_width:
  assumes "raster f"
  shows "frame_width (rotation_stage s f) =
         (if rotation_angle s = 90 \<or> rotation_angle s = 270 then frame_height f else frame_width f)"
  using assms
  by (simp add: rotation_stage_def rotate_90_clockwise_def rotate_180_def
      rotate_90_counterclockwise_def raster_columns raster_map_rev frame_width_rev
      frame_width_map_rev frame_width_columns)

lemma rotation_stage_height:
  assumes "raster f"
  shows "frame_height (rotation_stage s f) =
         (if rotation_angle s = 90 \<or> rotation_angle s = 270 then frame_width f else frame_height f)"
  using assms raster_width_pos [OF assms]
  by (simp add: rotation_stage_def rotate_90_clockwise_def rotate_180_def
      rotate_90_counterclockwise_def frame_height_rev frame_height_map_rev frame_height_columns)

lemma flip_stage_raster: "raster f \<Longrightarrow> raster (flip_stage s f)"
  by (simp add: flip_stage_def cv2_flip_def raster_map_rev raster_rev)

lemma flip_stage_width: "raster f \<Longrightarrow> frame_width (flip_stage s f) = frame_width f"
  by (simp add: flip_stage_def cv2_flip_def raster_map_rev frame_width_rev frame_width_map_rev)

lemma flip_stage_height: "frame_height (flip_stage s f) = frame_height f"
  by (simp add: flip_stage_def cv2_flip_def frame_height_rev frame_height_map_rev)

lemma clamp_bounds:
  assumes "0 < width" "0 < height"
    and "clamp_crop (x, y, w, h) width height = (x', y', w', h')"
  shows "0 \<le> x' \<and> x' \<le> width - 1 \<and> 0 \<le> y' \<and> y' \<le> height - 1 \<and>
         1 \<le> w' \<and> x' + w' \<le> width \<and> 1 \<le> h' \<and> y' + h' \<le> height"
proof -
  from assms(3) have x': "x' = max 0 (min x (width - 1))"
    and y': "y' = max 0 (min y (height - 1))"
    and w': "w' = max 1 (min w (width - x'))"
    and h': "h' = max 1 (min h (height - y'))"
    by (auto simp add: clamp_crop_def Let_def)
  from x' assms(1) have bx: "0 \<le> x' \<and> x' \<le> width - 1" by linarith
  from y' assms(2) have by': "0 \<le> y' \<and> y' \<le> height - 1" by linarith
  from w' bx have bw: "1 \<le> w' \<and> x' + w' \<le> width" by linarith
  from h' by' have bh: "1 \<le> h' \<and> y' + h' \<le> height" by linarith
  from bx by' bw bh show ?thesis by simp
qed

lemma length_py_slice:
  assumes "0 \<le> a" "0 \<le> n" "a + n \<le> int (length xs)"
  shows "int (length (py_slice xs a (a + n))) = n"
  using assms by (auto simp: py_slice_def slice_bound_def Let_def)

lemma crop_slice_height:
  assumes "0 \<le> y" "0 \<le> h" "y + h \<le> frame_height g"
  shows "frame_height (crop_slice g x y w h) = h"
  using assms length_py_slice [of y h g]
  by (simp add: crop_slice_def frame_height_def)

lemma crop_slice_width:
  assumes "raster g" "0 \<le> y" "1 \<le> h" "y + h \<le> frame_height g"
    and "0 \<le> x" "0 \<le> w" "x + w \<le> frame_width g"
  shows "frame_width (crop_slice g x y w h) = w"
proof -
  have l: "int (length (py_slice g y (y + h))) = h"
    using assms length_py_slice [of y h g] by (simp add: frame_height_def)
  with assms obtain r rs where rs: "py_slice g y (y + h) = r # rs"
    by (cases "py_slice g y (y + h)") auto
  have "set (py_slice g y (y + h)) \<subseteq> set g"
    by (auto simp: py_slice_def Let_def dest: in_set_takeD in_set_dropD)
  with rs have "r \<in> set g" by auto
  with assms have "int (length r) = frame_width g"
    using raster_rows [of g r] raster_width_pos [of g] by simp
  with assms have "int (length (py_slice r x (x + w))) = w"
    using length_py_slice [of x w r] by simp
  with rs show ?thesis by (simp add: crop_slice_def frame_width_def)
qed

lemma raster_replicate: "0 < m \<Longrightarrow> 0 < n \<Longrightarrow> raster (replicate m (replicate n p))"
  by (simp add: raster_def list_all_iff)

lemma frame_width_replicate: "0 < m \<Longrightarrow> frame_width (replicate m (replicate n p)) = int n"
  by (cases m) (simp_all add: frame_width_def)

section \<open>The transform pipeline\<close>

text \<open>
  Claim C1. For a raster \<open>f\<close> and a stored crop rectangle \<open>(x, y, w, h)\<close>,
  \<^verbatim>\<open>process_frame\<close> crops last: the result is the slice of \<open>g\<close>, the frame after the
  rotation and the flip stage, and the rectangle is clamped against the dimensions of
  \<open>g\<close>, which are the swapped dimensions of \<open>f\<close> when the angle is 90 or 270.
  \<open>x'\<close> lies in \<open>[0, width - 1]\<close>, \<open>y'\<close> in \<open>[0, height - 1]\<close>, \<open>w'\<close> and \<open>h'\<close> are at
  least 1 with \<open>x' + w' \<le> width\<close> and \<open>y' + h' \<le> height\<close>, and the cropped frame is
  \<open>w'\<close> wide and \<open>h'\<close> high.
\<close>

theorem crop_clamped_after_rotation_and_flip:
  assumes "raster f"
    and "crop_region s = Some (x, y, w, h)"
    and "g = flip_stage s (rotation_stage s f)"
    and "clamp_crop (x, y, w, h) (frame_width g) (frame_height g) = (x', y', w', h')"
  shows "process_frame s (Some f) = Some (crop_slice g x' y' w' h') \<and>
         frame_width g = (if rotation_angle s = 90 \<or> rotation_angle s = 270
                          then frame_height f else frame_width f) \<and>
         frame_height g = (if rotation_angle s = 90 \<or> rotation_angle s = 270
                           then frame_width f else frame_height f) \<and>
         x' = max 0 (min x (frame_width g - 1)) \<and>
         y' = max 0 (min y (frame_height g - 1)) \<and>
         w' = max 1 (min w (frame_width g - x')) \<and>
         h' = max 1 (min h (frame_height g - y')) \<and>
         0 \<le> x' \<and> x' \<le> frame_width g - 1 \<and>
         0 \<le> y' \<and> y' \<le> frame_height g - 1 \<and>
         1 \<le> w' \<and> x' + w' \<le> frame_width g \<and>
         1 \<le> h' \<and> y' + h' \<le> frame_height g \<and>
         frame_width (crop_slice g x' y' w' h') = w' \<and>
         frame_height (crop_slice g x' y' w' h') = h'"
proof -
  have rg: "raster g"
    using assms(1,3) by (simp add: flip_stage_raster rotation_stage_raster)
  have p: "process_frame s (Some f) = Some (crop_slice g x' y' w' h')"
    using assms(2,3,4) by (simp add: process_frame_def crop_stage_def)
  have gw: "frame_width g = (if rotation_angle s = 90 \<or> rotation_angle s = 270
                          then frame_height f else frame_width f)"
    using assms(1,3) by (simp add: flip_stage_width rotation_stage_raster rotation_stage_width)
  have gh: "frame_height g = (if rotation_angle s = 90 \<or> rotation_angle s = 270
                           then frame_width f else frame_height f)"
    using assms(1,3) by (simp add: flip_stage_height rotation_stage_height)
  have e: "x' = max 0 (min x (frame_width g - 1)) \<and>
         y' = max 0 (min y (frame_height g - 1)) \<and>
         w' = max 1 (min w (frame_width g - x')) \<and>
         h' = max 1 (min h (frame_height g - y'))"
    using assms(4) by (auto simp add: clamp_crop_def Let_def)
  note b = clamp_bounds [OF raster_width_pos [OF rg] raster_height_pos [OF rg] assms(4)]
  from b rg have cw: "frame_width (crop_slice g x' y' w' h') = w'"
    by (intro crop_slice_width) auto
  from b have ch: "frame_height (crop_slice g x' y' w' h') = h'"
    by (intro crop_slice_height) auto
  from p gw gh e b cw ch show ?thesis by blast
qed

text \<open>The example of the specification: a 1920 by 1080 frame, rotation 90, crop request
  (2000, 0, 100, 100). The crop is evaluated on the 1080 by 1920 rotated frame and clamps
  to \<open>x = 1079\<close>, \<open>w = 1\<close>.\<close>

theorem crop_clamped_after_rotation_and_flip_witness:
  "raster (replicate 1080 (replicate 1920 (0::nat))) \<and>
   crop_region (set_crop_region (set_rotation new_image_processor 90) 2000 0 100 100)
     = Some (2000, 0, 100, 100) \<and>
   frame_width (replicate 1080 (replicate 1920 (0::nat))) = 1920 \<and>
   frame_height (replicate 1080 (replicate 1920 (0::nat))) = 1080 \<and>
   (\<exists>g. g = flip_stage (set_crop_region (set_rotation new_image_processor 90) 2000 0 100 100)
             (rotation_stage (set_crop_region (set_rotation new_image_processor 90) 2000 0 100 100)
                (replicate 1080 (replicate 1920 (0::nat)))) \<and>
        frame_width g = 1080 \<and> frame_height g = 1920 \<and>
        clamp_crop (2000, 0, 100, 100) (frame_width g) (frame_height g) = (1079, 0, 1, 100) \<and>
        process_frame (set_crop_region (set_rotation new_image_processor 90) 2000 0 100 100)
          (Some (replicate 1080 (replicate 1920 (0::nat)))) = Some (crop_slice g 1079 0 1 100) \<and>
        frame_width (crop_slice g 1079 0 1 100) = 1 \<and>
        frame_height (crop_slice g 1079 0 1 100) = 100)"
proof -
  define F where "F = replicate 1080 (replicate 1920 (0::nat))"
  define S where "S = set_crop_region (set_rotation new_image_processor 90) 2000 0 100 100"
  define G where "G = flip_stage S (rotation_stage S F)"
  have r: "raster F" unfolding F_def by (rule raster_replicate) simp_all
  have c: "crop_region S = Some (2000, 0, 100, 100)"
    by (simp add: S_def set_crop_region_def)
  have a: "rotation_angle S = 90"
    by (simp add: S_def set_crop_region_def set_rotation_def)
  have fw: "frame_width F = 1920" unfolding F_def by (simp add: frame_width_replicate)
  have fh: "frame_height F = 1080" by (simp add: F_def frame_height_def)
  obtain x' y' w' h' where
    k: "clamp_crop (2000, 0, 100, 100) (frame_width G) (frame_height G) = (x', y', w', h')"
    by (cases "clamp_crop (2000, 0, 100, 100) (frame_width G) (frame_height G)") auto
  note t = crop_clamped_after_rotation_and_flip [OF r c G_def k]
  from t a fw fh have gw: "frame_width G = 1080" and gh: "frame_height G = 1920" by simp_all
  from t gw gh have v: "x' = 1079" "y' = 0" "w' = 1" "h' = 100" by simp_all
  from t k v gw gh r c fw fh show ?thesis
    unfolding F_def [symmetric] S_def [symmetric] G_def [symmetric] by simp
qed

text \<open>
  Claim C2, as stated: after \<^verbatim>\<open>set_rotation(angle)\<close> the stored angle is one of 0, 90,
  180, 270, for every integer angle. The code stores \<open>angle mod 360\<close>, so the angle 45 is
  stored as 45.
\<close>

theorem set_rotation_45_counterexample:
  "rotation_angle (set_rotation new_image_processor 45) \<notin> {0, 90, 180, 270}"
  by (simp add: set_rotation_def new_image_processor_def)

text \<open>
  Claim C2, amended: \<^verbatim>\<open>set_rotation(angle)\<close> stores \<open>angle mod 360\<close>, and for every angle
  that is a multiple of 90 the stored angle is one of 0, 90, 180, 270.
\<close>

theorem set_rotation_mod:
  "rotation_angle (set_rotation s angle) = angle mod 360 \<and>
   (angle mod 90 = 0 \<longrightarrow> rotation_angle (set_rotation s angle) \<in> {0, 90, 180, 270})"
proof -
  have "angle mod 90 = 0 \<Longrightarrow> angle mod 360 \<in> {0, 90, 180, 270}"
  proof -
    assume a: "angle mod 90 = 0"
    have b: "0 \<le> angle mod 360" "angle mod 360 < 360" by simp_all
    have "(angle mod 360) mod 90 = angle mod 90"
      by (simp add: mod_mod_cancel)
    with a have c: "(angle mod 360) mod 90 = 0" by simp
    then obtain k where k: "angle mod 360 = 90 * k" by (auto simp: mod_eq_0_iff_dvd)
    with b have "0 \<le> k" "k < 4" by auto
    then have "k = 0 \<or> k = 1 \<or> k = 2 \<or> k = 3" by auto
    with k show ?thesis by auto
  qed
  then show ?thesis by (simp add: set_rotation_def)
qed

theorem set_rotation_mod_witness:
  "(450::int) mod 90 = 0 \<and>
   rotation_angle (set_rotation new_image_processor 450) = 90 \<and>
   rotation_angle (set_rotation new_image_processor 450) \<in> {0, 90, 180, 270}"
  using set_rotation_mod [of new_image_processor 450] by simp

text \<open>
  Claim C8. Processing a frame that is not \<^verbatim>\<open>None\<close> with the settings that
  \<^verbatim>\<open>reset\<close> produces returns the frame itself.
\<close>

theorem process_frame_default_identity:
  "process_frame (reset s) (Some f) = Some f"
  by (simp add: process_frame_def reset_def crop_stage_def flip_stage_def rotation_stage_def)

text \<open>
  Claim C9. When the stored angle is none of 90, 180, 270, the rotation stage returns
  its input, and \<^verbatim>\<open>process_frame\<close> is the flip stage followed by the crop stage.
\<close>

theorem rotation_stage_other_angles:
  "rotation_angle s \<notin> {90, 180, 270} \<Longrightarrow>
     rotation_stage s f = f \<and>
     process_frame s (Some f) = Some (crop_stage s (flip_stage s f))"
  by (simp add: rotation_stage_def process_frame_def)

text \<open>The angle 45 survives \<^verbatim>\<open>set_rotation(45)\<close> and rotates nothing.\<close>

theorem rotation_stage_other_angles_witness:
  "rotation_angle (set_rotation new_image_processor 45) = 45 \<and>
   rotation_angle (set_rotation new_image_processor 45) \<notin> {90, 180, 270} \<and>
   rotation_stage (set_rotation new_image_processor 45) [[1, 2, 3], [4, 5, 6 :: nat]]
     = [[1, 2, 3], [4, 5, 6]] \<and>
   process_frame (set_rotation new_image_processor 45) (Some [[1, 2, 3], [4, 5, 6 :: nat]])
     = Some [[1, 2, 3], [4, 5, 6]]"
  using rotation_stage_other_angles
    [of "set_rotation new_image_processor 45" "[[1, 2, 3], [4, 5, 6 :: nat]]"]
  by (simp add: set_rotation_def new_image_processor_def crop_stage_def flip_stage_def)

section \<open>The camera feed\<close>






subsection \<open>The capture loop\<close>

lemma calls_append: "calls (xs @ ys) = calls xs @ calls ys"
  by (induction xs rule: calls.induct) simp_all

lemma calls_call_callbacks:
  "calls (call_callbacks behaviour cbs fr) = map (\<lambda>cb. (cb, fr)) cbs"
  by (induction cbs) (simp_all split: callback_outcome.splits)

lemma good_cycle_read:
  assumes "good_cycle c"
  obtains fr where "cycle_read c = ReadReturns True (Some fr)" "cycle_frame c = Some fr"
    "\<not> stop_signal c" "device_opened c"
  using assms
  by (auto simp: good_cycle_def cycle_frame_def split: read_result.splits if_splits)

lemma publish_fields:
  "stop_capture (publish f fr) = stop_capture f"
  "camera (publish f fr) = camera f"
  "processor (publish f fr) = processor f"
  "frame_callbacks (publish f fr) = frame_callbacks f"
  "processed_frame (publish f fr) = process_frame (processor f) (Some fr)"
  "current_frame (publish f fr) = Some fr"
  by (simp_all add: publish_def)

lemma capture_loop_good_step:
  assumes "good_cycle c" "\<not> stop_capture f" "camera f \<noteq> None"
    and "cycle_frame c = Some fr"
  shows "capture_loop behaviour (c # cs) f log =
         capture_loop behaviour cs (publish f fr)
           (log @ call_callbacks behaviour (frame_callbacks f)
                    (process_frame (processor f) (cycle_frame c)))"
proof -
  from assms(1,4) have "cycle_read c = ReadReturns True (Some fr)"
    "\<not> stop_signal c" "device_opened c"
    by (auto elim: good_cycle_read)
  with assms show ?thesis by (auto simp add: publish_fields)
qed

lemma capture_loop_good:
  assumes "list_all good_cycle cycles" "\<not> stop_capture f" "camera f \<noteq> None"
  shows "fst (capture_loop behaviour cycles f log) = Running \<and>
         calls (snd (snd (capture_loop behaviour cycles f log))) =
           calls log @
           concat (map (\<lambda>c. map (\<lambda>cb. (cb, process_frame (processor f) (cycle_frame c)))
                              (frame_callbacks f)) cycles)"
  using assms
proof (induction cycles arbitrary: f log)
  case Nil
  then show ?case by simp
next
  case (Cons c cs)
  from Cons.prems have g: "good_cycle c" and gs: "list_all good_cycle cs" by simp_all
  from g obtain fr where fr: "cycle_frame c = Some fr" by (auto elim: good_cycle_read)
  note step = capture_loop_good_step [OF g Cons.prems(2,3) fr]
  have "\<not> stop_capture (publish f fr)" "camera (publish f fr) \<noteq> None"
    using Cons.prems by (simp_all add: publish_fields)
  note ih = Cons.IH [OF gs this]
  show ?case
    unfolding step using ih
    by (simp add: publish_fields calls_append calls_call_callbacks)
qed

lemma capture_loop_good_log:
  assumes "list_all good_cycle cycles" "\<not> stop_capture f" "camera f \<noteq> None"
  shows "snd (snd (capture_loop behaviour cycles f log)) =
           log @ concat (map (\<lambda>c. call_callbacks behaviour (frame_callbacks f)
                                      (process_frame (processor f) (cycle_frame c))) cycles)"
  using assms
proof (induction cycles arbitrary: f log)
  case Nil
  then show ?case by simp
next
  case (Cons c cs)
  from Cons.prems have g: "good_cycle c" and gs: "list_all good_cycle cs" by simp_all
  from g obtain fr where fr: "cycle_frame c = Some fr" by (auto elim: good_cycle_read)
  note step = capture_loop_good_step [OF g Cons.prems(2,3) fr]
  have "\<not> stop_capture (publish f fr)" "camera (publish f fr) \<noteq> None"
    using Cons.prems by (simp_all add: publish_fields)
  note ih = Cons.IH [OF gs this]
  show ?case
    unfolding step using ih by (simp add: publish_fields)
qed

text \<open>
  Claim C4. Over any number of passes in which nothing stops the loop and the read
  succeeds, and whatever the callbacks do (return, or raise on every call), the loop is
  still running after the last pass, and in every pass every subscribed callback was
  called with the processed frame of that pass, in subscription order; a raising
  callback adds a printed error to the log and nothing else.
\<close>

theorem capture_loop_isolates_callbacks:
  assumes "list_all good_cycle cycles" "\<not> stop_capture f" "camera f \<noteq> None"
  shows "fst (capture_loop behaviour cycles f log) = Running \<and>
         snd (snd (capture_loop behaviour cycles f log)) =
           log @ concat (map (\<lambda>c. call_callbacks behaviour (frame_callbacks f)
                                      (process_frame (processor f) (cycle_frame c))) cycles) \<and>
         calls (snd (snd (capture_loop behaviour cycles f log))) =
           calls log @
           concat (map (\<lambda>c. map (\<lambda>cb. (cb, process_frame (processor f) (cycle_frame c)))
                              (frame_callbacks f)) cycles)"
  using capture_loop_good [OF assms] capture_loop_good_log [OF assms] by simp

text \<open>Ten passes, the first subscriber raising on every call: the second subscriber
  receives the ten frames.\<close>

theorem capture_loop_isolates_callbacks_witness:
  "list_all good_cycle ten_cycles \<and>
   \<not> stop_capture feed_two_callbacks \<and> camera feed_two_callbacks \<noteq> None \<and>
   frame_callbacks feed_two_callbacks = [0, 1] \<and>
   raising_first 0 = (\<lambda>fr. Raised) \<and>
   fst (capture_loop raising_first ten_cycles feed_two_callbacks []) = Running \<and>
   filter (\<lambda>e. fst e = 1)
     (calls (snd (snd (capture_loop raising_first ten_cycles feed_two_callbacks [])))) =
     map (\<lambda>k. (1, Some [[k]])) [1, 2, 3, 4, 5, 6, 7, 8, 9, 10] \<and>
   filter (\<lambda>e. fst e = 0)
     (calls (snd (snd (capture_loop raising_first ten_cycles feed_two_callbacks [])))) =
     map (\<lambda>k. (0, Some [[k]])) [1, 2, 3, 4, 5, 6, 7, 8, 9, 10]"
proof -
  have a: "list_all good_cycle ten_cycles"
    by (simp add: ten_cycles_def good_cycle_def cycle_frame_def)
  have b: "\<not> stop_capture feed_two_callbacks"
    by (simp add: feed_two_callbacks_def add_frame_callback_def new_camera_feed_def)
  have c: "camera feed_two_callbacks \<noteq> None"
    by (simp add: feed_two_callbacks_def add_frame_callback_def)
  have d: "frame_callbacks feed_two_callbacks = [0, 1]"
    by (simp add: feed_two_callbacks_def add_frame_callback_def new_camera_feed_def)
  have e: "processor feed_two_callbacks = new_image_processor"
    by (simp add: feed_two_callbacks_def add_frame_callback_def new_camera_feed_def)
  have p: "\<And>k. process_frame new_image_processor (Some [[k::nat]]) = Some [[k]]"
    by (simp add: process_frame_def new_image_processor_def rotation_stage_def
        flip_stage_def crop_stage_def)
  have r: "raising_first 0 = (\<lambda>fr. Raised)"
    by (simp add: raising_first_def fun_eq_iff)
  note t = capture_loop_isolates_callbacks [OF a b c, of raising_first "[]"]
  from t have run: "fst (capture_loop raising_first ten_cycles feed_two_callbacks []) = Running"
    by simp
  from t [THEN conjunct2, THEN conjunct2]
  have cl: "calls (snd (snd (capture_loop raising_first ten_cycles feed_two_callbacks []))) =
      concat (map (\<lambda>c. map (\<lambda>cb. (cb, process_frame new_image_processor (cycle_frame c))) [0, 1])
                ten_cycles)"
    by (simp add: d e)
  have f1: "filter (\<lambda>e. fst e = 1)
     (calls (snd (snd (capture_loop raising_first ten_cycles feed_two_callbacks [])))) =
     map (\<lambda>k. (1, Some [[k]])) [1, 2, 3, 4, 5, 6, 7, 8, 9, 10]"
    unfolding cl by (simp add: ten_cycles_def cycle_frame_def p)
  have f0: "filter (\<lambda>e. fst e = 0)
     (calls (snd (snd (capture_loop raising_first ten_cycles feed_two_callbacks [])))) =
     map (\<lambda>k. (0, Some [[k]])) [1, 2, 3, 4, 5, 6, 7, 8, 9, 10]"
    unfolding cl by (simp add: ten_cycles_def cycle_frame_def p)
  from a b c d r run f1 f0 show ?thesis by blast
qed

subsection \<open>The published pair\<close>







section \<open>The camera manager\<close>

lemma fst_try_camera_option: "fst (try_camera_option idx) = idx"
  by (simp add: try_camera_option_def)

lemma add_try_cameras_filter:
  "distinct idxs \<Longrightarrow>
     add_try_cameras idxs options =
       options @ map try_camera_option (filter (\<lambda>k. k \<notin> set (map fst options)) idxs)"
proof (induction idxs arbitrary: options)
  case Nil
  then show ?case by simp
next
  case (Cons idx idxs)
  then have d: "distinct idxs" and n: "idx \<notin> set idxs" by simp_all
  show ?case
  proof (cases "idx \<in> set (map fst options)")
    case True
    then show ?thesis using Cons.IH [OF d, of options] by simp
  next
    case False
    have "filter (\<lambda>k. k \<notin> set (map fst (options @ [try_camera_option idx]))) idxs =
          filter (\<lambda>k. k \<notin> set (map fst options)) idxs"
      using n by (intro filter_cong) (auto simp: fst_try_camera_option)
    with False show ?thesis
      using Cons.IH [OF d, of "options @ [try_camera_option idx]"] by simp
  qed
qed

lemma fst_detected_options: "map fst (detected_options env m) = available_cameras m"
  by (simp add: detected_options_def comp_def)

lemma fst_iphone_option:
  "set (map fst (iphone_option env m)) =
     (case detect_iphone_camera env of
        None \<Rightarrow> {}
      | Some i \<Rightarrow> if i \<in> set (available_cameras m) then {} else {i})"
  by (simp add: iphone_option_def split: option.splits)

lemma str_int_digits:
  "str_int 0 = ''0''" "str_int 2 = ''2''" "str_int 3 = ''3''" "str_int 4 = ''4''"
  "str_int 5 = ''5''"
  by (simp_all add: str_int_def)

text \<open>
  Claim C5, as stated: the output is the list of detected cameras plus at most one
  specially identified device, and nothing else. With camera 0 detected and no iPhone
  found, the output has four more entries, the \<^verbatim>\<open>Try Camera\<close> options 2 to 5.
\<close>

theorem camera_options_try_entries_counterexample:
  "available_cameras manager_one_camera = [0] \<and>
   detect_iphone_camera env_nothing = None \<and>
   detected_options env_nothing manager_one_camera = [(0, ''Camera 0'')] \<and>
   iphone_option env_nothing manager_one_camera = [] \<and>
   get_available_camera_options env_nothing manager_one_camera =
     [(0, ''Camera 0''),
      (2, ''Try Camera 2 (Possible iPhone)''),
      (3, ''Try Camera 3 (Possible iPhone)''),
      (4, ''Try Camera 4 (Possible iPhone)''),
      (5, ''Try Camera 5 (Possible iPhone)'')] \<and>
   length (get_available_camera_options env_nothing manager_one_camera) =
     length (detected_options env_nothing manager_one_camera) + 4"
  by (simp add: get_available_camera_options_def detected_options_def iphone_option_def
      env_nothing_def manager_one_camera_def get_camera_names_def name_or_default_def
      try_camera_option_def str_int_digits)

text \<open>
  Claim C5, amended. The output is the list of (index, name) pairs of the detected
  cameras in order, then the iPhone entry when one was found whose index is not
  detected, then a \<^verbatim>\<open>Try Camera\<close> entry for each of 2, 3, 4, 5 that is neither detected
  nor the iPhone index.
\<close>

theorem camera_options_structure:
  "get_available_camera_options env m =
     detected_options env m @ iphone_option env m @
     map try_camera_option
       (filter (\<lambda>k. k \<notin> set (available_cameras m) \<and> detect_iphone_camera env \<noteq> Some k)
          [2, 3, 4, 5]) \<and>
   map fst (detected_options env m) = available_cameras m \<and>
   iphone_option env m =
     (case detect_iphone_camera env of
        None \<Rightarrow> []
      | Some i \<Rightarrow> if i \<in> set (available_cameras m) then []
                  else [(i, ''iPhone Camera (Index '' @ str_int i @ '')'')])"
proof -
  have d: "distinct [2, 3, 4, 5 :: int]" by simp
  have k: "\<And>k. (k \<notin> set (map fst (detected_options env m @ iphone_option env m))) =
             (k \<notin> set (available_cameras m) \<and> detect_iphone_camera env \<noteq> Some k)"
    using fst_iphone_option [of env m]
    by (auto simp: fst_detected_options split: option.splits if_splits)
  have "get_available_camera_options env m =
     (detected_options env m @ iphone_option env m) @
     map try_camera_option
       (filter (\<lambda>k. k \<notin> set (map fst (detected_options env m @ iphone_option env m)))
          [2, 3, 4, 5])"
    unfolding get_available_camera_options_def by (rule add_try_cameras_filter [OF d])
  then have a: "get_available_camera_options env m =
     detected_options env m @ iphone_option env m @
     map try_camera_option
       (filter (\<lambda>k. k \<notin> set (available_cameras m) \<and> detect_iphone_camera env \<noteq> Some k)
          [2, 3, 4, 5])"
    unfolding k by simp
  have c: "iphone_option env m =
     (case detect_iphone_camera env of
        None \<Rightarrow> []
      | Some i \<Rightarrow> if i \<in> set (available_cameras m) then []
                  else [(i, ''iPhone Camera (Index '' @ str_int i @ '')'')])"
    by (simp add: iphone_option_def split: option.splits)
  from a fst_detected_options [of env m] c show ?thesis by blast
qed

theorem camera_options_structure_witness:
  "get_available_camera_options env_iphone_7 manager_three_cameras =
     [(0, ''FaceTime HD Camera''), (1, ''Camera 1''), (2, ''Camera 2''),
      (7, ''iPhone Camera (Index 7)''),
      (3, ''Try Camera 3 (Possible iPhone)''),
      (4, ''Try Camera 4 (Possible iPhone)''),
      (5, ''Try Camera 5 (Possible iPhone)'')]"
proof -
  have n: "get_camera_names env_iphone_7 manager_three_cameras =
           [0 \<mapsto> ''FaceTime HD Camera'', 1 \<mapsto> ''Camera 1'', 2 \<mapsto> ''Camera 2'']"
    by (simp add: get_camera_names_def env_iphone_7_def manager_three_cameras_def str_int_def)
  have d: "detected_options env_iphone_7 manager_three_cameras =
           [(0, ''FaceTime HD Camera''), (1, ''Camera 1''), (2, ''Camera 2'')]"
    unfolding detected_options_def n
    by (simp add: manager_three_cameras_def name_or_default_def)
  have a: "available_cameras manager_three_cameras = [0, 1, 2]"
    "detect_iphone_camera env_iphone_7 = Some 7"
    by (simp_all add: manager_three_cameras_def env_iphone_7_def)
  have s: "str_int 7 = ''7''" by (simp add: str_int_def)
  from camera_options_structure [of env_iphone_7 manager_three_cameras]
  show ?thesis
    by (simp add: d a s try_camera_option_def str_int_digits)
qed

text \<open>
  Claim C10. When the name \<open>n\<close> is bound to a feed object, \<^verbatim>\<open>create_camera_feed\<close>
  builds a new feed object, binds \<open>n\<close> to it and returns it; the object bound before is
  what it was (still connected, still holding its handle, its stop flag not set), no
  device is released and no other binding or object changes.
\<close>

theorem create_camera_feed_rebinds_only:
  assumes "camera_feeds (sys_manager st) n = Some r"
    and "sys_feeds st r = Some f"
    and "r < sys_next st"
    and "create_camera_feed env idx n st = (r', st')"
  shows "r' = sys_next st \<and> r' \<noteq> r \<and>
         camera_feeds (sys_manager st') n = Some r' \<and>
         sys_feeds st' r' =
           Some (new_camera_feed idx
                   (name_or_default (get_camera_names env (sys_manager st)) idx)) \<and>
         sys_feeds st' r = Some f \<and>
         sys_world st' = sys_world st \<and>
         (\<forall>n'. n' \<noteq> n \<longrightarrow> camera_feeds (sys_manager st') n' = camera_feeds (sys_manager st) n') \<and>
         (\<forall>q. q \<noteq> r' \<longrightarrow> sys_feeds st' q = sys_feeds st q)"
  using assms by (auto simp: create_camera_feed_def Let_def)

theorem create_camera_feed_rebinds_only_witness:
  "camera_feeds (sys_manager system_one_feed) ''rgb'' = Some 0 \<and>
   sys_feeds system_one_feed 0 = Some feed_running \<and>
   0 < sys_next system_one_feed \<and>
   fst (create_camera_feed env_nothing 1 ''rgb'' system_one_feed) = 1 \<and>
   camera_feeds (sys_manager (snd (create_camera_feed env_nothing 1 ''rgb'' system_one_feed)))
     ''rgb'' = Some 1 \<and>
   sys_feeds (snd (create_camera_feed env_nothing 1 ''rgb'' system_one_feed)) 1 =
     Some (new_camera_feed 1 ''Camera 1'' :: nat camera_feed) \<and>
   sys_feeds (snd (create_camera_feed env_nothing 1 ''rgb'' system_one_feed)) 0 =
     Some feed_running \<and>
   is_connected feed_running \<and> is_active feed_running \<and> \<not> stop_capture feed_running \<and>
   camera feed_running = Some 0 \<and>
   sys_world (snd (create_camera_feed env_nothing 1 ''rgb'' system_one_feed)) =
     \<lparr> captures = 1, opened = [0], released = [], threads = 1 \<rparr>"
proof -
  have a: "camera_feeds (sys_manager system_one_feed) ''rgb'' = Some 0"
    by (simp add: system_one_feed_def)
  have b: "sys_feeds system_one_feed 0 = Some feed_running"
    by (simp add: system_one_feed_def)
  have c: "0 < sys_next system_one_feed" by (simp add: system_one_feed_def)
  have d: "create_camera_feed env_nothing 1 ''rgb'' system_one_feed =
     (fst (create_camera_feed env_nothing 1 ''rgb'' system_one_feed),
      snd (create_camera_feed env_nothing 1 ''rgb'' system_one_feed))"
    by simp
  note t = create_camera_feed_rebinds_only [OF a b c d]
  have e: "name_or_default (get_camera_names env_nothing (sys_manager system_one_feed)) 1
             = ''Camera 1''"
    by (simp add: name_or_default_def get_camera_names_def env_nothing_def
        system_one_feed_def str_int_def)
  have f: "is_connected feed_running \<and> is_active feed_running \<and> \<not> stop_capture feed_running \<and>
     camera feed_running = Some 0"
    by (simp add: feed_running_def new_camera_feed_def)
  have g: "sys_next system_one_feed = 1"
    "sys_world system_one_feed = \<lparr> captures = 1, opened = [0], released = [], threads = 1 \<rparr>"
    by (simp_all add: system_one_feed_def)
  from t a b c e f g show ?thesis by auto
qed

end
